theory Spec2Isabelle
  imports Main
begin

section \<open>Values, errors and panic payloads\<close>

text \<open>
  The Go package \<open>gopromise\<close> (file \<open>promise.go\<close>) is embedded as an executable
  interleaving semantics.  Addresses of promises, channels and slices are indices into
  the lists of the state.
\<close>

type_synonym pid = nat
type_synonym cid = nat
type_synonym aid = nat

text \<open>
  A Go \<open>error\<close> value.  \<open>ErrorValue i m\<close> is an error made by the caller (for instance by
  \<open>errors.New(m)\<close>); \<open>i\<close> is its identity, so two such values are equal exactly when they
  are the same value.  \<open>Errorf m\<close> is what \<open>fmt.Errorf("%+v", r)\<close> returns, with \<open>m\<close> the
  rendered message.  \<open>RuntimeError m\<close> is an error raised by the Go runtime.
\<close>

datatype error = ErrorValue nat string | Errorf string | RuntimeError string

fun Error :: "error \<Rightarrow> string" where
  "Error (ErrorValue i m) = m"
| "Error (Errorf m) = m"
| "Error (RuntimeError m) = m"

text \<open>The static Go types that matter for zero values and for the type test of \<open>Then\<close>.\<close>

datatype ty = TInt | TString | TBool | TError | TAny | TSlice ty | TPromise ty

text \<open>
  Go values.  \<open>VNil\<close> is the nil interface, nil slice or nil pointer; \<open>VPromise T p\<close> is a
  non-nil pointer of type \<open>*Promise[T]\<close> to the promise at address \<open>p\<close>.
\<close>

datatype gval = VNil | VInt int | VString string | VBool bool | VError error
  | VSlice "gval list" | VPromise ty pid

fun zero :: "ty \<Rightarrow> gval" where
  "zero TInt = VInt 0"
| "zero TString = VString []"
| "zero TBool = VBool False"
| "zero TError = VNil"
| "zero TAny = VNil"
| "zero (TSlice T) = VNil"
| "zero (TPromise T) = VNil"

text \<open>
  The argument of \<open>panic\<close>, as \<open>recover()\<close> returns it.  \<open>PNil\<close> is the value nil, which
  \<open>recover()\<close> also returns when there was no panic (Go 1.19, the version the workflow
  file pins).  \<open>POther m\<close> is any other value, given by its \<open>%+v\<close> rendering \<open>m\<close>.
\<close>

datatype payload = PNil | PString string | PError error | POther string

text \<open>\<open>fmt.Sprintf("%+v", r)\<close>\<close>

fun format_plus_v :: "payload \<Rightarrow> string" where
  "format_plus_v PNil = ''<nil>''"
| "format_plus_v (PString s) = s"
| "format_plus_v (PError e) = Error e"
| "format_plus_v (POther m) = m"

text \<open>
  The body of the deferred function of \<open>New\<close> computes the argument of \<open>p.reject\<close>:
  \<open>if err, ok := r.(error); ok { p.reject(err) } else { p.reject(fmt.Errorf("%+v", r)) }\<close>
\<close>

fun recover_to_error :: "payload \<Rightarrow> error" where
  "recover_to_error (PError err) = err"
| "recover_to_error r = Errorf (format_plus_v r)"

section \<open>The promise and its settlement\<close>

datatype promiseStatus = PENDING | FULFILLED | REJECTED

text \<open>
  \<open>type Promise[T any] struct { value T; reason error; status promiseStatus; mutex; wg }\<close>.
  The field \<open>value\<close> is called \<open>val\<close> here.  The mutex is held for the whole body of
  \<open>resolve\<close> and of \<open>reject\<close>, so each of them is one atomic function on the record; \<open>wg\<close> is
  the counter of the wait group.
\<close>

record Promise =
  val :: gval
  reason :: "error option"
  status :: promiseStatus
  wg :: int

definition resolve :: "gval \<Rightarrow> Promise \<Rightarrow> Promise" where
  "resolve v p =
     (if status p \<noteq> PENDING then p
      else p\<lparr>status := FULFILLED, val := v, wg := wg p - 1\<rparr>)"

definition reject :: "error option \<Rightarrow> Promise \<Rightarrow> Promise" where
  "reject err p =
     (if status p \<noteq> PENDING then p
      else p\<lparr>status := REJECTED, reason := err, wg := wg p - 1\<rparr>)"

text \<open>
  \<open>Await\<close> waits until the counter is zero and returns \<open>(p.value, p.reason)\<close>; \<open>None\<close> means
  that the caller is still blocked in \<open>p.wg.Wait()\<close>.
\<close>

definition Await :: "Promise \<Rightarrow> (gval \<times> error option) option" where
  "Await p = (if wg p = 0 then Some (val p, reason p) else None)"

text \<open>The promise that \<open>New[T]\<close> allocates, after \<open>p.wg.Add(1)\<close>.\<close>

definition fresh :: "ty \<Rightarrow> Promise" where
  "fresh T = \<lparr>val = zero T, reason = None, status = PENDING, wg = 1\<rparr>"

text \<open>A call of one of the two functions an executor receives.\<close>

datatype call = CallResolve gval | CallReject "error option"

fun apply_call :: "call \<Rightarrow> Promise \<Rightarrow> Promise" where
  "apply_call (CallResolve v) p = resolve v p"
| "apply_call (CallReject err) p = reject err p"

definition apply_calls :: "call list \<Rightarrow> Promise \<Rightarrow> Promise" where
  "apply_calls cs p = foldl (\<lambda>q c. apply_call c q) p cs"

section \<open>Goroutines\<close>

text \<open>What a continuation supplied by the caller does: it returns a value or panics.\<close>

datatype outcome = Ret gval | Pan payload

text \<open>
  The function values of the package.  \<open>UserCb f\<close> is a continuation of the caller.  The
  others are the closures that the package itself passes to \<open>Then\<close> and \<open>Catch\<close>:
  \<^item> \<open>FlattenThenCb p\<close>: \<open>func(val R) R { resolve(val); return val }\<close>, with \<open>resolve\<close> of promise \<open>p\<close>;
  \<^item> \<open>FlattenCatchCb p\<close>: \<open>func(err error) any { reject(err); return nil }\<close>;
  \<^item> \<open>AllThenCb va dc idx\<close>: \<open>func(val T) T { values[idx] = val; doneChan <- true; return val }\<close>;
  \<^item> \<open>RaceThenCb vc\<close>: \<open>func(val T) T { valueChan <- val; return val }\<close>;
  \<^item> \<open>ErrSendCb ec\<close>: \<open>func(err error) error { errChan <- err; return err }\<close>.
\<close>

datatype callback = UserCb "gval \<Rightarrow> outcome"
  | FlattenThenCb pid | FlattenCatchCb pid
  | AllThenCb aid cid nat | RaceThenCb cid | ErrSendCb cid

text \<open>How an executor of the caller ends.\<close>

datatype finish = Returns | Panics payload | Blocks

text \<open>
  The executors that \<open>New\<close> receives.  \<open>UserExec cs f\<close> is an executor of the caller, given
  by the calls of \<open>resolve\<close> and \<open>reject\<close> it makes, in order, and by how it ends.  The other
  four are the function literals in \<open>Then\<close>, \<open>Catch\<close>, \<open>All\<close> and \<open>Race\<close>, with the variables
  they capture.
\<close>

datatype executor = UserExec "call list" finish
  | ThenExec pid callback ty
  | CatchExec "pid option" callback ty
  | AllExec ty "pid option list"
  | RaceExec ty "pid option list"

text \<open>
  A goroutine started by \<open>New\<close> for promise \<open>p\<close>, at one of its blocking points:
  \<^item> \<open>Go p ex\<close>: about to run \<open>exec(p.resolve, p.reject)\<close>;
  \<^item> \<open>AtSend p R ch msg res\<close>: inside a continuation at \<open>ch <- msg\<close>, which then returns \<open>res\<close>;
  \<^item> \<open>AllLoop p idx n dc ec va\<close>: at the \<open>select\<close> of \<open>All\<close>, iteration \<open>idx\<close> of \<open>n\<close>;
  \<^item> \<open>RaceSelect p vc ec\<close>: at the \<open>select\<close> of \<open>Race\<close>;
  \<^item> \<open>Deferred p r\<close>: the executor is over and the deferred function is about to run,
    where \<open>recover()\<close> will return \<open>r\<close>;
  \<^item> \<open>Hung\<close>: the executor never returns; \<open>Exited\<close>: the goroutine is over.
\<close>

datatype task = Go pid executor
  | AtSend pid ty cid gval gval
  | AllLoop pid nat nat cid cid aid
  | RaceSelect pid cid cid
  | Deferred pid payload
  | Hung
  | Exited

record chan =
  chan_buf :: "gval list"
  chan_cap :: nat

text \<open>An invocation of a continuation of the caller, by the goroutine of promise \<open>p\<close>.\<close>

datatype event = Invoked pid gval

record state =
  heap :: "Promise list"
  chans :: "chan list"
  arrays :: "gval list list"
  pool :: "task list"
  trace :: "event list"

definition init :: state where
  "init = \<lparr>heap = [], chans = [], arrays = [], pool = [], trace = []\<rparr>"

definition resolve_at :: "pid \<Rightarrow> gval \<Rightarrow> state \<Rightarrow> state" where
  "resolve_at p v st = st\<lparr>heap := (heap st)[p := resolve v (heap st ! p)]\<rparr>"

definition reject_at :: "pid \<Rightarrow> error option \<Rightarrow> state \<Rightarrow> state" where
  "reject_at p err st = st\<lparr>heap := (heap st)[p := reject err (heap st ! p)]\<rparr>"

text \<open>\<open>make(chan T, n)\<close>, a send that does not block, and a receive.\<close>

definition make_chan :: "nat \<Rightarrow> state \<Rightarrow> cid \<times> state" where
  "make_chan n st = (length (chans st), st\<lparr>chans := chans st @ [\<lparr>chan_buf = [], chan_cap = n\<rparr>]\<rparr>)"

definition can_send :: "chan \<Rightarrow> bool" where
  "can_send ch = (length (chan_buf ch) < chan_cap ch)"

definition send_at :: "cid \<Rightarrow> gval \<Rightarrow> state \<Rightarrow> state" where
  "send_at c msg st =
     st\<lparr>chans := (chans st)[c := (chans st ! c)\<lparr>chan_buf := chan_buf (chans st ! c) @ [msg]\<rparr>]\<rparr>"

definition recv_at :: "cid \<Rightarrow> state \<Rightarrow> state" where
  "recv_at c st =
     st\<lparr>chans := (chans st)[c := (chans st ! c)\<lparr>chan_buf := tl (chan_buf (chans st ! c))\<rparr>]\<rparr>"

definition spawn :: "task \<Rightarrow> state \<Rightarrow> state" where
  "spawn t st = st\<lparr>pool := pool st @ [t]\<rparr>"

section \<open>The operations of the package\<close>

text \<open>
  An operation that can panic at call time returns \<open>Inl\<close> of the payload.  \<open>New\<close> allocates
  the promise and starts its goroutine.
\<close>

definition New :: "ty \<Rightarrow> executor option \<Rightarrow> state \<Rightarrow> payload + (pid \<times> state)" where
  "New T exec st =
     (case exec of
        None \<Rightarrow> Inl (PString ''executor cannot be nil'')
      | Some ex \<Rightarrow>
          Inr (length (heap st), spawn (Go (length (heap st)) ex) (st\<lparr>heap := heap st @ [fresh T]\<rparr>)))"

definition Then :: "pid option \<Rightarrow> callback \<Rightarrow> ty \<Rightarrow> state \<Rightarrow> payload + (pid \<times> state)" where
  "Then src cb R st =
     (case src of
        None \<Rightarrow> Inl (PString ''must provide valid promise'')
      | Some s \<Rightarrow> New R (Some (ThenExec s cb R)) st)"

definition Catch :: "pid option \<Rightarrow> callback \<Rightarrow> ty \<Rightarrow> state \<Rightarrow> payload + (pid \<times> state)" where
  "Catch src cb R st = New R (Some (CatchExec src cb R)) st"

definition Resolve :: "gval \<Rightarrow> state \<Rightarrow> pid \<times> state" where
  "Resolve v st =
     (length (heap st),
      st\<lparr>heap := heap st @ [\<lparr>val = v, reason = None, status = FULFILLED, wg = 0\<rparr>]\<rparr>)"

definition Reject :: "ty \<Rightarrow> error option \<Rightarrow> state \<Rightarrow> pid \<times> state" where
  "Reject T err st =
     (length (heap st),
      st\<lparr>heap := heap st @ [\<lparr>val = zero T, reason = err, status = REJECTED, wg = 0\<rparr>]\<rparr>)"

definition All :: "ty \<Rightarrow> pid option list \<Rightarrow> state \<Rightarrow> payload + (pid option \<times> state)" where
  "All T promises st =
     (if length promises = 0 then Inr (None, st)
      else case New (TSlice T) (Some (AllExec T promises)) st of
             Inl r \<Rightarrow> Inl r
           | Inr (p, st1) \<Rightarrow> Inr (Some p, st1))"

definition Race :: "ty \<Rightarrow> pid option list \<Rightarrow> state \<Rightarrow> payload + (pid option \<times> state)" where
  "Race T promises st =
     (if length promises = 0 then Inr (None, st)
      else case New T (Some (RaceExec T promises)) st of
             Inl r \<Rightarrow> Inl r
           | Inr (p, st1) \<Rightarrow> Inr (Some p, st1))"

section \<open>The bodies of the goroutines\<close>

text \<open>\<open>rp, ok := interface{}(resOrProm).(*Promise[R])\<close>\<close>

fun is_promise_of :: "ty \<Rightarrow> gval \<Rightarrow> pid option" where
  "is_promise_of R (VPromise T rp) = (if T = R then Some rp else None)"
| "is_promise_of R v = None"

fun err_of :: "gval \<Rightarrow> error option" where
  "err_of (VError e) = Some e"
| "err_of v = None"

text \<open>
  The rest of the executor of \<open>Then\<close> and of \<open>Catch\<close> once the continuation has returned
  \<open>resOrProm\<close>: either the two chained calls and \<open>return\<close>, or \<open>resolve(resOrProm)\<close>.  A
  panic of a chained call ends the executor with that payload.
\<close>

definition after_cb :: "pid \<Rightarrow> ty \<Rightarrow> gval \<Rightarrow> state \<Rightarrow> task \<times> state" where
  "after_cb p R resOrProm st =
     (case is_promise_of R resOrProm of
        Some rp \<Rightarrow>
          (case Then (Some rp) (FlattenThenCb p) R st of
             Inl r \<Rightarrow> (Deferred p r, st)
           | Inr (q1, st1) \<Rightarrow>
               (case Catch (Some rp) (FlattenCatchCb p) TAny st1 of
                  Inl r \<Rightarrow> (Deferred p r, st1)
                | Inr (q2, st2) \<Rightarrow> (Deferred p PNil, st2)))
      | None \<Rightarrow> (Deferred p PNil, resolve_at p resOrProm st))"

definition send_or_block :: "pid \<Rightarrow> ty \<Rightarrow> cid \<Rightarrow> gval \<Rightarrow> gval \<Rightarrow> state \<Rightarrow> task \<times> state" where
  "send_or_block p R ch msg res st =
     (if can_send (chans st ! ch) then after_cb p R res (send_at ch msg st)
      else (AtSend p R ch msg res, st))"

text \<open>\<open>resOrProm := cb(arg)\<close> and what follows it, for each function value.\<close>

fun call_cb :: "pid \<Rightarrow> ty \<Rightarrow> callback \<Rightarrow> gval \<Rightarrow> state \<Rightarrow> task \<times> state" where
  "call_cb p R (UserCb f) arg st =
     (case f arg of
        Ret res \<Rightarrow> after_cb p R res (st\<lparr>trace := trace st @ [Invoked p arg]\<rparr>)
      | Pan r \<Rightarrow> (Deferred p r, st\<lparr>trace := trace st @ [Invoked p arg]\<rparr>))"
| "call_cb p R (FlattenThenCb target) arg st = after_cb p R arg (resolve_at target arg st)"
| "call_cb p R (FlattenCatchCb target) arg st =
     after_cb p R VNil (reject_at target (err_of arg) st)"
| "call_cb p R (AllThenCb va dc idx) arg st =
     send_or_block p R dc (VBool True) arg
       (st\<lparr>arrays := (arrays st)[va := (arrays st ! va)[idx := arg]]\<rparr>)"
| "call_cb p R (RaceThenCb vc) arg st = send_or_block p R vc arg arg st"
| "call_cb p R (ErrSendCb ec) arg st = send_or_block p R ec arg arg st"

text \<open>
  The loop \<open>for idx, p := range promises\<close> of \<open>All\<close>: \<open>Then\<close> and \<open>Catch\<close> on each input.
  A panic of one of these calls ends the loop: the result is its payload and the state
  reached, in which the goroutines started so far go on.
\<close>

fun All_spawn :: "ty \<Rightarrow> aid \<Rightarrow> cid \<Rightarrow> cid \<Rightarrow> nat \<Rightarrow> pid option list \<Rightarrow> state \<Rightarrow> payload option \<times> state" where
  "All_spawn T va dc ec idx [] st = (None, st)"
| "All_spawn T va dc ec idx (p # ps) st =
     (case Then p (AllThenCb va dc idx) T st of
        Inl r \<Rightarrow> (Some r, st)
      | Inr (q1, st1) \<Rightarrow>
          (case Catch p (ErrSendCb ec) TError st1 of
             Inl r \<Rightarrow> (Some r, st1)
           | Inr (q2, st2) \<Rightarrow> All_spawn T va dc ec (idx + 1) ps st2))"

fun Race_spawn :: "ty \<Rightarrow> cid \<Rightarrow> cid \<Rightarrow> pid option list \<Rightarrow> state \<Rightarrow> payload option \<times> state" where
  "Race_spawn T vc ec [] st = (None, st)"
| "Race_spawn T vc ec (p # ps) st =
     (case Then p (RaceThenCb vc) T st of
        Inl r \<Rightarrow> (Some r, st)
      | Inr (q1, st1) \<Rightarrow>
          (case Catch p (ErrSendCb ec) TError st1 of
             Inl r \<Rightarrow> (Some r, st1)
           | Inr (q2, st2) \<Rightarrow> Race_spawn T vc ec ps st2))"

text \<open>
  The executor of \<open>All\<close> up to its first \<open>select\<close>: the two channels, the slice
  \<open>values\<close>, and the loop above.
\<close>

definition All_setup :: "pid \<Rightarrow> ty \<Rightarrow> pid option list \<Rightarrow> state \<Rightarrow> task \<times> state" where
  "All_setup p T promises st =
     (case make_chan (length promises) st of
        (dc, st1) \<Rightarrow>
          (case make_chan 1 st1 of
             (ec, st2) \<Rightarrow>
               (case All_spawn T (length (arrays st2)) dc ec 0 promises
                       (st2\<lparr>arrays := arrays st2 @ [replicate (length promises) (zero T)]\<rparr>) of
                  (Some r, st3) \<Rightarrow> (Deferred p r, st3)
                | (None, st3) \<Rightarrow> (AllLoop p 0 (length promises) dc ec (length (arrays st2)), st3))))"

definition Race_setup :: "pid \<Rightarrow> ty \<Rightarrow> pid option list \<Rightarrow> state \<Rightarrow> task \<times> state" where
  "Race_setup p T promises st =
     (case make_chan 1 st of
        (vc, st1) \<Rightarrow>
          (case make_chan 1 st1 of
             (ec, st2) \<Rightarrow>
               (case Race_spawn T vc ec promises st2 of
                  (Some r, st3) \<Rightarrow> (Deferred p r, st3)
                | (None, st3) \<Rightarrow> (RaceSelect p vc ec, st3))))"

text \<open>
  One scheduling of a goroutine: it runs from its blocking point to the next one.  \<open>None\<close>
  means that it cannot move.  The flag \<open>c\<close> is the choice of a \<open>select\<close> with both channels
  ready (\<open>True\<close>: the first case).
\<close>

fun exec_task :: "bool \<Rightarrow> task \<Rightarrow> state \<Rightarrow> (task \<times> state) option" where
  "exec_task c (Go p (UserExec calls fin)) st =
     Some (case fin of Returns \<Rightarrow> Deferred p PNil | Panics r \<Rightarrow> Deferred p r | Blocks \<Rightarrow> Hung,
           st\<lparr>heap := (heap st)[p := apply_calls calls (heap st ! p)]\<rparr>)"
| "exec_task c (Go p (ThenExec src cb R)) st =
     (case Await (heap st ! src) of
        None \<Rightarrow> None
      | Some (v, Some err) \<Rightarrow> Some (Deferred p PNil, reject_at p (Some err) st)
      | Some (v, None) \<Rightarrow> Some (call_cb p R cb v st))"
| "exec_task c (Go p (CatchExec src cb R)) st =
     (case src of
        None \<Rightarrow>
          Some (Deferred p (PError (RuntimeError ''invalid memory address or nil pointer dereference'')), st)
      | Some s \<Rightarrow>
          (case Await (heap st ! s) of
             None \<Rightarrow> None
           | Some (v, Some err) \<Rightarrow> Some (call_cb p R cb (VError err) st)
           | Some (v, None) \<Rightarrow> Some (Deferred p PNil, st)))"
| "exec_task c (Go p (AllExec T promises)) st = Some (All_setup p T promises st)"
| "exec_task c (Go p (RaceExec T promises)) st = Some (Race_setup p T promises st)"
| "exec_task c (AtSend p R ch msg res) st =
     (if can_send (chans st ! ch) then Some (after_cb p R res (send_at ch msg st)) else None)"
| "exec_task c (AllLoop p idx n dc ec va) st =
     (if idx < n then
        (if chan_buf (chans st ! dc) \<noteq> [] \<and> (c \<or> chan_buf (chans st ! ec) = [])
         then Some (AllLoop p (idx + 1) n dc ec va, recv_at dc st)
         else if chan_buf (chans st ! ec) \<noteq> []
         then Some (Deferred p PNil,
                    reject_at p (err_of (hd (chan_buf (chans st ! ec)))) (recv_at ec st))
         else None)
      else Some (Deferred p PNil, resolve_at p (VSlice (arrays st ! va)) st))"
| "exec_task c (RaceSelect p vc ec) st =
     (if chan_buf (chans st ! vc) \<noteq> [] \<and> (c \<or> chan_buf (chans st ! ec) = [])
      then Some (Deferred p PNil, resolve_at p (hd (chan_buf (chans st ! vc))) (recv_at vc st))
      else if chan_buf (chans st ! ec) \<noteq> []
      then Some (Deferred p PNil,
                 reject_at p (err_of (hd (chan_buf (chans st ! ec)))) (recv_at ec st))
      else None)"
| "exec_task c (Deferred p r) st = Some (Exited, reject_at p (Some (recover_to_error r)) st)"
| "exec_task c Hung st = None"
| "exec_task c Exited st = None"

text \<open>
  The scheduler: \<open>step (i, c)\<close> lets goroutine \<open>i\<close> of the pool move, if it can; a schedule
  is a list of such choices.
\<close>

definition step :: "nat \<times> bool \<Rightarrow> state \<Rightarrow> state" where
  "step x st =
     (if fst x < length (pool st) then
        (case exec_task (snd x) (pool st ! fst x) st of
           None \<Rightarrow> st
         | Some (t, st1) \<Rightarrow> st1\<lparr>pool := (pool st1)[fst x := t]\<rparr>)
      else st)"

fun run :: "(nat \<times> bool) list \<Rightarrow> state \<Rightarrow> state" where
  "run [] st = st"
| "run (x # xs) st = run xs (step x st)"

section \<open>Auxiliary notions\<close>

text \<open>
  In a heap built by the operations of the package, the counter of the wait group of a
  promise is 1 while it is pending and 0 afterwards.
\<close>

definition wf_heap :: "Promise list \<Rightarrow> bool" where
  "wf_heap h \<longleftrightarrow> (\<forall>p < length h. wg (h ! p) = (if status (h ! p) = PENDING then 1 else 0))"

text \<open>
  \<open>keeps h h1\<close>: heap \<open>h1\<close> is a later heap than \<open>h\<close> in which every promise that was
  settled in \<open>h\<close> is the same record, and which is well formed if \<open>h\<close> is.
\<close>

definition keeps :: "Promise list \<Rightarrow> Promise list \<Rightarrow> bool" where
  "keeps h h1 \<longleftrightarrow>
     length h \<le> length h1 \<and>
     (\<forall>p < length h. status (h ! p) \<noteq> PENDING \<longrightarrow> h1 ! p = h ! p) \<and>
     (wf_heap h \<longrightarrow> wf_heap h1)"

text \<open>
  The error value of the tests, \<open>var promiseError = errors.New("Promise Error")\<close>, and a
  state with the promises \<open>Resolve(42)\<close> at address 0 and \<open>Reject[any](promiseError)\<close> at
  address 1.
\<close>

definition promiseError :: error where
  "promiseError = ErrorValue 0 ''Promise Error''"

definition two_settled :: state where
  "two_settled = snd (Reject TAny (Some promiseError) (snd (Resolve (VInt 42) init)))"

section \<open>Basic facts\<close>

lemma nth_upd: "(xs[i := x]) ! j = (if i = j \<and> i < length xs then x else xs ! j)"
  by (cases "i < length xs") (auto simp: nth_list_update list_update_beyond)

lemma resolve_settled: "status p \<noteq> PENDING \<Longrightarrow> resolve v p = p"
  by (simp add: resolve_def)

lemma reject_settled: "status p \<noteq> PENDING \<Longrightarrow> reject e p = p"
  by (simp add: reject_def)

lemma apply_call_settled: "status p \<noteq> PENDING \<Longrightarrow> apply_call c p = p"
  by (cases c) (simp_all add: resolve_settled reject_settled)

lemma apply_calls_settled: "status p \<noteq> PENDING \<Longrightarrow> apply_calls cs p = p"
  unfolding apply_calls_def by (induction cs) (simp_all add: apply_call_settled)

lemma apply_call_settles: "status p = PENDING \<Longrightarrow> status (apply_call c p) \<noteq> PENDING"
  by (cases c) (simp_all add: resolve_def reject_def)

lemma apply_calls_first: "status p = PENDING \<Longrightarrow> apply_calls (c # cs) p = apply_call c p"
  using apply_calls_settled [of "apply_call c p" cs] apply_call_settles [of p c]
  by (simp add: apply_calls_def)

lemma sel_resolve_at [simp]:
  "chans (resolve_at p v st) = chans st" "arrays (resolve_at p v st) = arrays st"
  "pool (resolve_at p v st) = pool st" "trace (resolve_at p v st) = trace st"
  "heap (resolve_at p v st) = (heap st)[p := resolve v (heap st ! p)]"
  by (simp_all add: resolve_at_def)

lemma sel_reject_at [simp]:
  "chans (reject_at p e st) = chans st" "arrays (reject_at p e st) = arrays st"
  "pool (reject_at p e st) = pool st" "trace (reject_at p e st) = trace st"
  "heap (reject_at p e st) = (heap st)[p := reject e (heap st ! p)]"
  by (simp_all add: reject_at_def)

lemma sel_send_at [simp]:
  "heap (send_at c m st) = heap st" "arrays (send_at c m st) = arrays st"
  "pool (send_at c m st) = pool st" "trace (send_at c m st) = trace st"
  "chans (send_at c m st) =
     (chans st)[c := (chans st ! c)\<lparr>chan_buf := chan_buf (chans st ! c) @ [m]\<rparr>]"
  by (simp_all add: send_at_def)

lemma sel_recv_at [simp]:
  "heap (recv_at c st) = heap st" "arrays (recv_at c st) = arrays st"
  "pool (recv_at c st) = pool st" "trace (recv_at c st) = trace st"
  "chans (recv_at c st) =
     (chans st)[c := (chans st ! c)\<lparr>chan_buf := tl (chan_buf (chans st ! c))\<rparr>]"
  by (simp_all add: recv_at_def)

lemma sel_spawn [simp]:
  "heap (spawn t st) = heap st" "arrays (spawn t st) = arrays st"
  "chans (spawn t st) = chans st" "trace (spawn t st) = trace st"
  "pool (spawn t st) = pool st @ [t]"
  by (simp_all add: spawn_def)

lemma New_Some:
  "New T (Some ex) st = Inr (q, st1) \<longleftrightarrow>
     q = length (heap st) \<and>
     st1 = st\<lparr>heap := heap st @ [fresh T], pool := pool st @ [Go (length (heap st)) ex]\<rparr>"
  by (auto simp: New_def spawn_def)

lemma New_Some_eq:
  "New T (Some ex) st =
     Inr (length (heap st),
          st\<lparr>heap := heap st @ [fresh T], pool := pool st @ [Go (length (heap st)) ex]\<rparr>)"
  by (simp add: New_def spawn_def)

subsection \<open>A settled promise is never written again\<close>

lemma keeps_refl [simp]: "keeps h h"
  by (simp add: keeps_def)

lemma keeps_trans: "keeps h h1 \<Longrightarrow> keeps h1 h2 \<Longrightarrow> keeps h h2"
  by (auto simp: keeps_def)

lemma wf_promise_settle:
  "wg p = (if status p = PENDING then 1 else 0) \<Longrightarrow>
     wg (resolve v p) = (if status (resolve v p) = PENDING then 1 else 0) \<and>
     wg (reject e p) = (if status (reject e p) = PENDING then 1 else 0)"
  by (simp add: resolve_def reject_def)

lemma wf_promise_calls:
  "wg p = (if status p = PENDING then 1 else 0) \<Longrightarrow>
     wg (apply_calls cs p) = (if status (apply_calls cs p) = PENDING then 1 else 0)"
proof (induction cs arbitrary: p)
  case Nil
  then show ?case by (simp add: apply_calls_def)
next
  case (Cons c cs)
  have "wg (apply_call c p) = (if status (apply_call c p) = PENDING then 1 else 0)"
    using wf_promise_settle [OF Cons.prems] by (cases c) simp_all
  from Cons.IH [OF this] show ?case by (simp add: apply_calls_def)
qed

lemma wf_heap_fresh: "wf_heap h \<Longrightarrow> wf_heap (h @ [fresh T])"
  by (auto simp: wf_heap_def nth_append fresh_def)

lemma keeps_fresh [simp]: "keeps h (h @ [fresh T])"
  by (simp add: keeps_def nth_append wf_heap_fresh)

lemma keeps_update:
  assumes same: "status (h ! p) \<noteq> PENDING \<Longrightarrow> x = h ! p"
    and wf: "wg (h ! p) = (if status (h ! p) = PENDING then 1 else 0) \<Longrightarrow>
             wg x = (if status x = PENDING then 1 else 0)"
  shows "keeps h (h[p := x])"
  unfolding keeps_def
proof (intro conjI allI impI)
  show "length h \<le> length (h[p := x])" by simp
next
  fix q
  assume "q < length h" "status (h ! q) \<noteq> PENDING"
  then show "h[p := x] ! q = h ! q" using same by (auto simp: nth_upd)
next
  assume w: "wf_heap h"
  show "wf_heap (h[p := x])"
    unfolding wf_heap_def
  proof (intro allI impI)
    fix q
    assume q: "q < length (h[p := x])"
    show "wg (h[p := x] ! q) = (if status (h[p := x] ! q) = PENDING then 1 else 0)"
    proof (cases "q = p")
      case True
      with q w have "wg (h ! p) = (if status (h ! p) = PENDING then 1 else 0)"
        by (simp add: wf_heap_def)
      from wf [OF this] True q show ?thesis by simp
    next
      case False
      with q w show ?thesis by (simp add: wf_heap_def)
    qed
  qed
qed

lemma keeps_resolve [simp]: "keeps h (h[p := resolve v (h ! p)])"
  by (rule keeps_update) (simp_all add: resolve_settled wf_promise_settle)

lemma keeps_reject [simp]: "keeps h (h[p := reject e (h ! p)])"
  by (rule keeps_update) (simp_all add: reject_settled wf_promise_settle)

lemma keeps_apply_calls [simp]: "keeps h (h[p := apply_calls cs (h ! p)])"
  by (rule keeps_update) (simp_all add: apply_calls_settled wf_promise_calls)

lemma keeps_Then: "Then src cb R st = Inr (q, st1) \<Longrightarrow> keeps (heap st) (heap st1)"
  by (auto simp: Then_def New_Some split: option.splits)

lemma keeps_Catch: "Catch src cb R st = Inr (q, st1) \<Longrightarrow> keeps (heap st) (heap st1)"
  by (auto simp: Catch_def New_Some)

lemma keeps_after_cb: "after_cb p R res st = (t, st1) \<Longrightarrow> keeps (heap st) (heap st1)"
  by (auto simp: after_cb_def split: option.splits sum.splits dest!: keeps_Then keeps_Catch)
     (meson keeps_trans)

lemma keeps_send_or_block:
  "send_or_block p R ch msg res st = (t, st1) \<Longrightarrow> keeps (heap st) (heap st1)"
  by (auto simp: send_or_block_def split: if_splits dest!: keeps_after_cb)

lemma keeps_call_cb: "call_cb p R cb arg st = (t, st1) \<Longrightarrow> keeps (heap st) (heap st1)"
  by (cases cb)
     (auto split: outcome.splits dest!: keeps_after_cb keeps_send_or_block
        intro: keeps_trans [OF keeps_resolve] keeps_trans [OF keeps_reject])

lemma keeps_All_spawn:
  "All_spawn T va dc ec idx ps st = (r, st1) \<Longrightarrow> keeps (heap st) (heap st1)"
proof (induction ps arbitrary: idx st)
  case Nil
  then show ?case by simp
next
  case (Cons p ps)
  then show ?case
    by (auto split: sum.splits dest!: keeps_Then keeps_Catch) (meson keeps_trans)
qed

lemma keeps_Race_spawn:
  "Race_spawn T vc ec ps st = (r, st1) \<Longrightarrow> keeps (heap st) (heap st1)"
proof (induction ps arbitrary: st)
  case Nil
  then show ?case by simp
next
  case (Cons p ps)
  then show ?case
    by (auto split: sum.splits dest!: keeps_Then keeps_Catch) (meson keeps_trans)
qed

lemma keeps_All_setup: "All_setup p T ps st = (t, st1) \<Longrightarrow> keeps (heap st) (heap st1)"
  by (auto simp: All_setup_def make_chan_def split: option.splits prod.splits
      dest!: keeps_All_spawn)

lemma keeps_Race_setup: "Race_setup p T ps st = (t, st1) \<Longrightarrow> keeps (heap st) (heap st1)"
  by (auto simp: Race_setup_def make_chan_def split: option.splits prod.splits
      dest!: keeps_Race_spawn)

lemma keeps_exec_task: "exec_task c t st = Some (t1, st1) \<Longrightarrow> keeps (heap st) (heap st1)"
proof (induction c t st rule: exec_task.induct)
  case (2 c p src cb R st)
  then show ?case
    by (auto split: option.splits if_splits dest!: keeps_call_cb)
next
  case (3 c p src cb R st)
  then show ?case
    by (auto split: option.splits if_splits dest!: keeps_call_cb)
next
  case (4 c p T promises st)
  then show ?case by (auto dest!: keeps_All_setup)
next
  case (5 c p T promises st)
  then show ?case by (auto dest!: keeps_Race_setup)
next
  case (6 c p R ch msg res st)
  then show ?case by (auto split: if_splits dest!: keeps_after_cb)
qed (auto split: if_splits)

lemma keeps_step: "keeps (heap st) (heap (step x st))"
  by (auto simp: step_def split: option.splits dest!: keeps_exec_task)

lemma keeps_run: "keeps (heap st) (heap (run xs st))"
proof (induction xs arbitrary: st)
  case Nil
  show ?case by simp
next
  case (Cons x xs)
  show ?case using keeps_trans [OF keeps_step Cons.IH] by simp
qed

subsection \<open>Where a goroutine is after it has moved\<close>

lemma after_cb_task: "after_cb p R res st = (t, st1) \<Longrightarrow> \<exists>r. t = Deferred p r"
  by (auto simp: after_cb_def split: option.splits sum.splits)

lemma send_or_block_task:
  "send_or_block p R ch msg res st = (t, st1) \<Longrightarrow>
     (\<exists>r. t = Deferred p r) \<or> t = AtSend p R ch msg res"
  by (auto simp: send_or_block_def split: if_splits dest: after_cb_task)

lemma call_cb_task:
  "call_cb p R cb arg st = (t, st1) \<Longrightarrow>
     (\<exists>r. t = Deferred p r) \<or> (\<exists>ch msg res. t = AtSend p R ch msg res)"
  by (cases cb) (auto split: outcome.splits dest: after_cb_task send_or_block_task)

lemma All_setup_task:
  "All_setup p T ps st = (t, st1) \<Longrightarrow>
     (\<exists>r. t = Deferred p r) \<or> (\<exists>dc ec va. t = AllLoop p 0 (length ps) dc ec va)"
  by (auto simp: All_setup_def make_chan_def split: option.splits prod.splits)

lemma Race_setup_task:
  "Race_setup p T ps st = (t, st1) \<Longrightarrow>
     (\<exists>r. t = Deferred p r) \<or> (\<exists>vc ec. t = RaceSelect p vc ec)"
  by (auto simp: Race_setup_def make_chan_def split: option.splits prod.splits)

lemma exec_task_Exited:
  "exec_task c t st = Some (Exited, st1) \<Longrightarrow>
     \<exists>p r. t = Deferred p r \<and> st1 = reject_at p (Some (recover_to_error r)) st"
proof (induction c t st rule: exec_task.induct)
  case (1 c p calls fin st)
  then show ?case by (auto split: finish.splits)
next
  case (2 c p src cb R st)
  then show ?case by (auto split: option.splits dest: call_cb_task)
next
  case (3 c p src cb R st)
  then show ?case by (auto split: option.splits dest: call_cb_task)
next
  case (4 c p T promises st)
  then show ?case by (auto dest: All_setup_task)
next
  case (5 c p T promises st)
  then show ?case by (auto dest: Race_setup_task)
next
  case (6 c p R ch msg res st)
  then show ?case by (auto split: if_splits dest: after_cb_task)
qed (auto split: if_splits)

section \<open>Empty inputs of the aggregate operations\<close>

text \<open>
  C9: \<open>All\<close> of no promise returns the nil pointer, and no promise is allocated and no
  goroutine started; \<open>Race\<close> likewise.
\<close>

theorem All_Race_empty: "All T [] st = Inr (None, st) \<and> Race T [] st = Inr (None, st)"
  by (simp add: All_def Race_def)

section \<open>Settlement happens at most once\<close>

text \<open>
  C1: \<open>resolve\<close> and \<open>reject\<close> move a promise out of \<open>PENDING\<close> only when it is \<open>PENDING\<close>
  and leave a settled promise as it is.  The mutex makes the calls of all goroutines one
  sequence: of any sequence of calls on a new promise, the first one decides and the
  others change nothing.  On a fulfilled promise the reason is still nil, on a rejected
  one the value is still the zero value.  Whatever the goroutines of a state do, in any
  order, a settled promise of its heap stays the same record.
\<close>

theorem settles_at_most_once:
  "(status p = PENDING \<longrightarrow>
      resolve v p = p\<lparr>status := FULFILLED, val := v, wg := wg p - 1\<rparr> \<and>
      reject e p = p\<lparr>status := REJECTED, reason := e, wg := wg p - 1\<rparr>) \<and>
   (status p' \<noteq> PENDING \<longrightarrow> resolve v p' = p' \<and> reject e p' = p' \<and> apply_calls cs p' = p') \<and>
   apply_calls (c # cs) (fresh T) = apply_call c (fresh T) \<and>
   status (apply_call c (fresh T)) \<noteq> PENDING \<and>
   (status (apply_calls cs (fresh T)) = FULFILLED \<longrightarrow> reason (apply_calls cs (fresh T)) = None) \<and>
   (status (apply_calls cs' (fresh T)) = REJECTED \<longrightarrow> val (apply_calls cs' (fresh T)) = zero T) \<and>
   (q < length (heap st) \<and> status (heap st ! q) \<noteq> PENDING \<longrightarrow>
      heap (run sched st) ! q = heap st ! q)"
proof -
  have pend: "status (fresh T) = PENDING"
    by (simp add: fresh_def)
  have a: "status p = PENDING \<longrightarrow>
      resolve v p = p\<lparr>status := FULFILLED, val := v, wg := wg p - 1\<rparr> \<and>
      reject e p = p\<lparr>status := REJECTED, reason := e, wg := wg p - 1\<rparr>"
    by (simp add: resolve_def reject_def)
  have b: "status p' \<noteq> PENDING \<longrightarrow>
      resolve v p' = p' \<and> reject e p' = p' \<and> apply_calls cs p' = p'"
    by (simp add: resolve_settled reject_settled apply_calls_settled)
  have c: "apply_calls (c # cs) (fresh T) = apply_call c (fresh T)"
    using pend by (rule apply_calls_first)
  have d: "status (apply_call c (fresh T)) \<noteq> PENDING"
    using pend by (rule apply_call_settles)
  have one: "(status (apply_call k (fresh T)) = FULFILLED \<longrightarrow>
        reason (apply_call k (fresh T)) = None) \<and>
      (status (apply_call k (fresh T)) = REJECTED \<longrightarrow> val (apply_call k (fresh T)) = zero T)"
    for k
    by (cases k) (simp_all add: fresh_def resolve_def reject_def)
  have ef: "(status (apply_calls ks (fresh T)) = FULFILLED \<longrightarrow>
        reason (apply_calls ks (fresh T)) = None) \<and>
      (status (apply_calls ks (fresh T)) = REJECTED \<longrightarrow> val (apply_calls ks (fresh T)) = zero T)"
    for ks
  proof (cases ks)
    case Nil
    then show ?thesis by (simp add: apply_calls_def fresh_def)
  next
    case (Cons k ks')
    then show ?thesis using one [of k] pend by (simp add: apply_calls_first)
  qed
  have g: "q < length (heap st) \<and> status (heap st ! q) \<noteq> PENDING \<longrightarrow>
      heap (run sched st) ! q = heap st ! q"
    using keeps_run [of st sched] by (simp add: keeps_def)
  from a b c d ef [of cs] ef [of cs'] g show ?thesis by blast
qed

theorem settles_at_most_once_witness:
  "status (fresh TInt) = PENDING \<and>
   resolve (VInt 42) (fresh TInt) = \<lparr>val = VInt 42, reason = None, status = FULFILLED, wg = 0\<rparr> \<and>
   reject (Some (ErrorValue 0 ''Promise Error'')) (fresh TInt) =
     \<lparr>val = VInt 0, reason = Some (ErrorValue 0 ''Promise Error''), status = REJECTED, wg = 0\<rparr> \<and>
   status (resolve (VInt 1) (fresh TInt)) \<noteq> PENDING \<and>
   reject (Some (ErrorValue 0 ''Promise Error'')) (resolve (VInt 1) (fresh TInt)) =
     resolve (VInt 1) (fresh TInt) \<and>
   resolve (VInt 42) (resolve (VInt 1) (fresh TInt)) = resolve (VInt 1) (fresh TInt) \<and>
   status (apply_calls [CallResolve (VInt 1), CallReject None] (fresh TInt)) = FULFILLED \<and>
   reason (apply_calls [CallResolve (VInt 1), CallReject None] (fresh TInt)) = None \<and>
   status (apply_calls [CallReject None, CallResolve (VInt 1)] (fresh TInt)) = REJECTED \<and>
   val (apply_calls [CallReject None, CallResolve (VInt 1)] (fresh TInt)) = zero TInt \<and>
   0 < length (heap (snd (Resolve (VInt 1) init))) \<and>
   status (heap (snd (Resolve (VInt 1) init)) ! 0) \<noteq> PENDING \<and>
   heap (run [(0, True)] (snd (Resolve (VInt 1) init))) ! 0 = heap (snd (Resolve (VInt 1) init)) ! 0"
  using settles_at_most_once [of "fresh TInt" "VInt 42" "Some (ErrorValue 0 ''Promise Error'')"
      "resolve (VInt 1) (fresh TInt)" "[CallResolve (VInt 1), CallReject None]"
      "CallResolve (VInt 1)" TInt "[CallReject None, CallResolve (VInt 1)]"
      0 "snd (Resolve (VInt 1) init)" "[(0, True)]"]
  by (simp add: fresh_def Resolve_def init_def resolve_def reject_def apply_calls_def)

section \<open>Panics at the task boundary\<close>

text \<open>
  C5: the deferred function of the goroutine of \<open>New\<close> turns the value of \<open>recover()\<close> into
  the argument of \<open>p.reject\<close>: an error value is passed as it is; any other payload, nil
  included, becomes the error \<open>fmt.Errorf("%+v", r)\<close>, which is never nil and whose message
  for a string payload is that string.  So an executor that panics with \<open>r\<close> after the
  calls \<open>calls\<close> leaves the promise as \<open>reject\<close> of that error leaves it: rejected with it
  when the executor had not settled the promise.  The same holds for a continuation of
  \<open>Then\<close> or \<open>Catch\<close> that panics.
\<close>

theorem panic_becomes_rejection:
  "recover_to_error (PError err) = err \<and>
   recover_to_error (PString s) = Errorf s \<and> Error (Errorf s) = s \<and>
   recover_to_error PNil = Errorf ''<nil>'' \<and>
   recover_to_error (POther m) = Errorf m \<and>
   exec_task c (Deferred p r) st = Some (Exited, reject_at p (Some (recover_to_error r)) st) \<and>
   (case New T (Some (UserExec calls (Panics r))) st of
      Inl x \<Rightarrow> False
    | Inr (q, st1) \<Rightarrow>
        heap (run [(length (pool st), c), (length (pool st), c)] st1) ! q =
          reject (Some (recover_to_error r)) (apply_calls calls (fresh T))) \<and>
   reject (Some (recover_to_error r)) (apply_calls [] (fresh T)) =
     \<lparr>val = zero T, reason = Some (recover_to_error r), status = REJECTED, wg = 0\<rparr> \<and>
   (src < length (heap st) \<and> Await (heap st ! src) = Some (v, None) \<and> f v = Pan r \<longrightarrow>
      (case Then (Some src) (UserCb f) R st of
         Inl x \<Rightarrow> False
       | Inr (q, st1) \<Rightarrow>
           heap (run [(length (pool st), c), (length (pool st), c)] st1) ! q =
             \<lparr>val = zero R, reason = Some (recover_to_error r), status = REJECTED, wg = 0\<rparr>)) \<and>
   (src' < length (heap st) \<and> Await (heap st ! src') = Some (v', Some e) \<and>
    f' (VError e) = Pan r \<longrightarrow>
      (case Catch (Some src') (UserCb f') R st of
         Inl x \<Rightarrow> False
       | Inr (q, st1) \<Rightarrow>
           heap (run [(length (pool st), c), (length (pool st), c)] st1) ! q =
             \<lparr>val = zero R, reason = Some (recover_to_error r), status = REJECTED, wg = 0\<rparr>))"
  by (simp add: Then_def Catch_def New_Some_eq step_def reject_def fresh_def apply_calls_def
      nth_append)

theorem panic_becomes_rejection_witness:
  "0 < length (heap two_settled) \<and> Await (heap two_settled ! 0) = Some (VInt 42, None) \<and>
   1 < length (heap two_settled) \<and> Await (heap two_settled ! 1) = Some (VNil, Some promiseError) \<and>
   (case Then (Some 0) (UserCb (\<lambda>x. Pan (PString ''random error''))) TAny two_settled of
      Inl x \<Rightarrow> False
    | Inr (q, st1) \<Rightarrow>
        heap (run [(0, True), (0, True)] st1) ! q =
          \<lparr>val = VNil, reason = Some (Errorf ''random error''), status = REJECTED, wg = 0\<rparr>) \<and>
   (case Catch (Some 1) (UserCb (\<lambda>x. Pan (PString ''random error''))) TAny two_settled of
      Inl x \<Rightarrow> False
    | Inr (q, st1) \<Rightarrow>
        heap (run [(0, True), (0, True)] st1) ! q =
          \<lparr>val = VNil, reason = Some (Errorf ''random error''), status = REJECTED, wg = 0\<rparr>)"
  using panic_becomes_rejection [where st = two_settled and src = 0 and v = "VInt 42"
      and f = "\<lambda>x. Pan (PString ''random error'')" and r = "PString ''random error''"
      and src' = 1 and v' = VNil and e = promiseError
      and f' = "\<lambda>x. Pan (PString ''random error'')" and R = TAny and c = True]
  by (simp add: two_settled_def Resolve_def Reject_def init_def Await_def Then_def Catch_def
      New_Some_eq)


section \<open>An executor that never settles its promise\<close>

text \<open>
  C10: when the executor returns without a call of \<open>resolve\<close> or \<open>reject\<close>, \<open>recover()\<close>
  is nil in the deferred function, which rejects the promise with the error of message
  \<open><nil>\<close>.  A goroutine of \<open>New\<close> is over only through its deferred function, whose
  \<open>reject\<close> leaves the promise settled, so that \<open>Await\<close> returns from then on, with the same
  result under every later schedule.
\<close>

theorem unsettled_executor_is_rejected:
  "(case New T (Some (UserExec [] Returns)) st of
      Inl x \<Rightarrow> False
    | Inr (q, st1) \<Rightarrow>
        heap st1 ! q = fresh T \<and>
        pool (run [(length (pool st), c), (length (pool st), c)] st1) ! length (pool st) = Exited \<and>
        heap (run [(length (pool st), c), (length (pool st), c)] st1) ! q =
          \<lparr>val = zero T, reason = Some (Errorf ''<nil>''), status = REJECTED, wg = 0\<rparr> \<and>
        Await (heap (run [(length (pool st), c), (length (pool st), c)] st1) ! q) =
          Some (zero T, Some (Errorf ''<nil>''))) \<and>
   Error (Errorf ''<nil>'') = ''<nil>'' \<and>
   (exec_task c t st = Some (Exited, st2) \<longrightarrow>
      (\<exists>p r. t = Deferred p r \<and> st2 = reject_at p (Some (recover_to_error r)) st)) \<and>
   (p < length (heap st') \<and>
    wg (heap st' ! p) = (if status (heap st' ! p) = PENDING then 1 else 0) \<longrightarrow>
      status (heap (reject_at p e st') ! p) \<noteq> PENDING \<and>
      Await (heap (reject_at p e st') ! p) \<noteq> None \<and>
      (\<forall>sched. heap (run sched (reject_at p e st')) ! p = heap (reject_at p e st') ! p))"
proof -
  have a: "(case New T (Some (UserExec [] Returns)) st of
      Inl x \<Rightarrow> False
    | Inr (q, st1) \<Rightarrow>
        heap st1 ! q = fresh T \<and>
        pool (run [(length (pool st), c), (length (pool st), c)] st1) ! length (pool st) = Exited \<and>
        heap (run [(length (pool st), c), (length (pool st), c)] st1) ! q =
          \<lparr>val = zero T, reason = Some (Errorf ''<nil>''), status = REJECTED, wg = 0\<rparr> \<and>
        Await (heap (run [(length (pool st), c), (length (pool st), c)] st1) ! q) =
          Some (zero T, Some (Errorf ''<nil>'')))"
    by (simp add: New_Some_eq step_def reject_def fresh_def Await_def apply_calls_def)
  have b: "exec_task c t st = Some (Exited, st2) \<longrightarrow>
      (\<exists>p r. t = Deferred p r \<and> st2 = reject_at p (Some (recover_to_error r)) st)"
    by (blast dest: exec_task_Exited)
  have c: "p < length (heap st') \<and>
    wg (heap st' ! p) = (if status (heap st' ! p) = PENDING then 1 else 0) \<longrightarrow>
      status (heap (reject_at p e st') ! p) \<noteq> PENDING \<and>
      Await (heap (reject_at p e st') ! p) \<noteq> None \<and>
      (\<forall>sched. heap (run sched (reject_at p e st')) ! p = heap (reject_at p e st') ! p)"
  proof (intro impI conjI allI)
    assume h: "p < length (heap st') \<and>
      wg (heap st' ! p) = (if status (heap st' ! p) = PENDING then 1 else 0)"
    then show s: "status (heap (reject_at p e st') ! p) \<noteq> PENDING"
      by (simp add: reject_def)
    from h show "Await (heap (reject_at p e st') ! p) \<noteq> None"
      by (simp add: reject_def Await_def)
    fix sched
    from h s show "heap (run sched (reject_at p e st')) ! p = heap (reject_at p e st') ! p"
      using keeps_run [of "reject_at p e st'" sched] by (simp add: keeps_def)
  qed
  from a b c show ?thesis by simp
qed

theorem unsettled_executor_is_rejected_witness:
  "exec_task True (Deferred 0 PNil) (snd (Resolve (VInt 42) init)) =
     Some (Exited, reject_at 0 (Some (Errorf ''<nil>'')) (snd (Resolve (VInt 42) init))) \<and>
   0 < length (heap \<lparr>heap = [fresh TInt], chans = [], arrays = [], pool = [Deferred 0 PNil], trace = []\<rparr>) \<and>
   wg (fresh TInt) = 1 \<and> status (fresh TInt) = PENDING \<and>
   Await (heap (reject_at 0 (Some (Errorf ''<nil>''))
     \<lparr>heap = [fresh TInt], chans = [], arrays = [], pool = [Deferred 0 PNil], trace = []\<rparr>) ! 0) =
     Some (VInt 0, Some (Errorf ''<nil>'')) \<and>
   heap (run [(0, True), (0, False)] (reject_at 0 (Some (Errorf ''<nil>''))
     \<lparr>heap = [fresh TInt], chans = [], arrays = [], pool = [Deferred 0 PNil], trace = []\<rparr>)) ! 0 =
     \<lparr>val = VInt 0, reason = Some (Errorf ''<nil>''), status = REJECTED, wg = 0\<rparr>"
  using unsettled_executor_is_rejected [where t = "Deferred 0 PNil" and c = True
      and st = "snd (Resolve (VInt 42) init)"
      and ?st2.0 = "reject_at 0 (Some (Errorf ''<nil>'')) (snd (Resolve (VInt 42) init))"
      and p = 0 and e = "Some (Errorf ''<nil>'')"
      and st' = "\<lparr>heap = [fresh TInt], chans = [], arrays = [], pool = [Deferred 0 PNil], trace = []\<rparr>"]
  by (simp add: fresh_def reject_def Await_def step_def)


section \<open>Catch on a fulfilled source\<close>

text \<open>
  C2 (the code differs): when the source is fulfilled, the executor of \<open>Catch\<close> returns
  without calling \<open>resolve\<close>; the continuation is not invoked, and the deferred function
  rejects the new promise with the error of message \<open><nil>\<close>.  The value of the source is
  not passed on.
\<close>

theorem Catch_fulfilled_source_is_rejected:
  "src < length (heap st) \<and> Await (heap st ! src) = Some (v, None) \<longrightarrow>
   (case Catch (Some src) cb R st of
      Inl x \<Rightarrow> False
    | Inr (q, st1) \<Rightarrow>
        q = length (heap st) \<and>
        trace (run [(length (pool st), c), (length (pool st), c)] st1) = trace st \<and>
        heap (run [(length (pool st), c), (length (pool st), c)] st1) ! q =
          \<lparr>val = zero R, reason = Some (Errorf ''<nil>''), status = REJECTED, wg = 0\<rparr> \<and>
        Await (heap (run [(length (pool st), c), (length (pool st), c)] st1) ! q) =
          Some (zero R, Some (Errorf ''<nil>'')))"
  by (simp add: Catch_def New_Some_eq step_def reject_def fresh_def Await_def nth_append)

theorem Catch_fulfilled_source_is_rejected_witness:
  "Await (heap (snd (Resolve (VInt 42) init)) ! 0) = Some (VInt 42, None) \<and>
   (case Catch (Some 0) (UserCb (\<lambda>e. Ret (VString ''Tadaa''))) TAny (snd (Resolve (VInt 42) init)) of
      Inl x \<Rightarrow> False
    | Inr (q, st1) \<Rightarrow>
        q = 1 \<and> trace (run [(0, True), (0, True)] st1) = [] \<and>
        Await (heap (run [(0, True), (0, True)] st1) ! q) = Some (VNil, Some (Errorf ''<nil>'')))"
  using Catch_fulfilled_source_is_rejected [where src = 0
      and st = "snd (Resolve (VInt 42) init)" and v = "VInt 42"
      and cb = "UserCb (\<lambda>e. Ret (VString ''Tadaa''))" and R = TAny and c = True]
  by (simp add: Resolve_def init_def Await_def Catch_def New_Some_eq)


section \<open>Nil arguments\<close>

text \<open>
  C7 (the code differs for \<open>Catch\<close>): \<open>New\<close> with a nil executor and \<open>Then\<close> with a nil
  source panic at the call.  \<open>Catch\<close> has no such test: with a nil source it returns a new
  promise, whose goroutine panics in \<open>src.Await()\<close>; the deferred function turns that into
  a rejection of the new promise.
\<close>

theorem nil_source_of_Catch_becomes_rejection:
  "New T None st = Inl (PString ''executor cannot be nil'') \<and>
   Then None cb R st = Inl (PString ''must provide valid promise'') \<and>
   (case Catch None cb R st of
      Inl x \<Rightarrow> False
    | Inr (q, st1) \<Rightarrow>
        q = length (heap st) \<and>
        heap (run [(length (pool st), c), (length (pool st), c)] st1) ! q =
          \<lparr>val = zero R,
           reason = Some (RuntimeError ''invalid memory address or nil pointer dereference''),
           status = REJECTED, wg = 0\<rparr>)"
  by (simp add: New_def Then_def Catch_def spawn_def step_def reject_def fresh_def)

end
